theory Spec2Isabelle
  imports Complex_Main "HOL-Library.Char_ord"
begin

section \<open>Token model and errors\<close>

text \<open>
  The class \<open>Token\<close> of \<open>dsl_parser.py\<close>: a token kind (a Python string such as
  \<open>"KW"\<close> or \<open>"ID"\<close>), the lexeme, and the line and column of its first character.
  The selectors carry the prefix \<open>tok_\<close> because \<open>line\<close> and \<open>col\<close> are also the
  local variables of \<open>tokenize\<close>. Text is a list of 8-bit characters: the model covers
  source text whose code points are below 256, where \<open>\d\<close> is \<open>[0-9]\<close>.
\<close>

datatype token = Token (tok_type: string) (tok_value: string) (tok_line: nat) (tok_col: nat)

text \<open>
  Every failure of the source is a \<open>DSLParseError\<close> carrying a message. The three
  message families (\<open>Error lexico\<close>, \<open>Error sintactico\<close>, \<open>Error semantico\<close>) are the
  first three constructors below, each with the data its message is formatted from.
  \<open>IndexError\<close> and \<open>ValueError\<close> are the Python exceptions of \<open>tokens[pos]\<close> and of
  \<open>int\<close>/\<open>float\<close>.
\<close>

datatype syntax_error =
    Expected string "string option" string string
      \<comment> \<open>\<open>consume\<close>: expected kind and value, kind and value that arrived\<close>
  | ExpectedFin
      \<comment> \<open>\<open>fin\<close>: expected \<open>;\<close> or a line break\<close>
  | BadCriticidad
      \<comment> \<open>\<open>def_producto\<close>: CRITICIDAD must be ALTA, MEDIA or BAJA\<close>
  | MissingFinAfterBracket
      \<comment> \<open>\<open>bloque_transacciones\<close>: no terminator after \<open>]\<close>\<close>
  | ExpectedTx
      \<comment> \<open>\<open>tx\<close>: expected RETIRAR, RESURTIR or CONTAR\<close>
  | BadConsulta
      \<comment> \<open>\<open>consulta\<close>: invalid query\<close>

datatype semantic_error =
    ReservedAsId string
      \<comment> \<open>the identifier is a reserved word\<close>
  | DuplicateCarrusel string
      \<comment> \<open>carousel defined more than once\<close>
  | DuplicateProducto string
      \<comment> \<open>product defined more than once\<close>
  | EspaciosNotPositive
      \<comment> \<open>ESPACIOS must be > 0\<close>
  | CapacidadNotPositive
      \<comment> \<open>CAPACIDAD must be > 0\<close>
  | PrecioNegative
      \<comment> \<open>PRECIO must be >= 0\<close>
  | MinimoGtMaximo
      \<comment> \<open>MINIMO must be <= MAXIMO\<close>
  | UndefinedProducto string
      \<comment> \<open>product used in a transaction but not defined\<close>
  | CantidadNotPositive
      \<comment> \<open>quantity must be > 0\<close>

datatype error =
    Lexical nat nat char
  | Syntactic nat nat syntax_error
  | Semantic semantic_error
  | IndexError
  | ValueError

definition and_then :: "error + 'a \<Rightarrow> ('a \<Rightarrow> error + 'b) \<Rightarrow> error + 'b" where
  "and_then r f = (case r of Inl e \<Rightarrow> Inl e | Inr x \<Rightarrow> f x)"

section \<open>Lexer\<close>

definition RESERVED :: "string set" where
  "RESERVED = {
     ''CARRUSEL'', ''PRODUCTO'', ''ESPACIOS'', ''CAPACIDAD'',
     ''PRECIO'', ''MINIMO'', ''MAXIMO'', ''CRITICIDAD'',
     ''ALTA'', ''MEDIA'', ''BAJA'',
     ''SIMULAR'', ''TRANSACCIONES'',
     ''RETIRAR'', ''RESURTIR'', ''CONTAR'',
     ''ESTADO'', ''ESTADISTICAS'', ''REPORTE''}"

definition SYMBOLS :: "char \<Rightarrow> string option" where
  "SYMBOLS = map_of [
     (CHR ''{'', ''LBRACE''),
     (CHR ''}'', ''RBRACE''),
     (CHR ''('', ''LPAREN''),
     (CHR '')'', ''RPAREN''),
     (CHR ''['', ''LBRACKET''),
     (CHR '']'', ''RBRACKET''),
     (CHR '':'', ''COLON''),
     (CHR '','', ''COMMA''),
     (CHR '';'', ''SEMI'')]"

definition newline :: char where "newline = CHR 0x0A"
definition tab :: char where "tab = CHR 0x09"
definition dquote :: char where "dquote = CHR 0x22"
definition backslash :: char where "backslash = CHR 0x5C"

definition is_digit :: "char \<Rightarrow> bool" where
  "is_digit c = (CHR ''0'' \<le> c \<and> c \<le> CHR ''9'')"

definition is_alpha :: "char \<Rightarrow> bool" where
  "is_alpha c = ((CHR ''A'' \<le> c \<and> c \<le> CHR ''Z'') \<or> (CHR ''a'' \<le> c \<and> c \<le> CHR ''z''))"

definition is_idchar :: "char \<Rightarrow> bool" where
  "is_idchar c = (is_alpha c \<or> is_digit c \<or> c = CHR ''_'')"

text \<open>
  The compiled patterns. Each function is \<open>RE.match(chunk)\<close>: \<open>Some\<close> of the matched
  prefix (\<open>m.group(0)\<close>), or \<open>None\<close>. None of the patterns leaves a choice to
  backtracking: a greedy run of a character class is followed by a character outside
  the class or by nothing.
\<close>

definition RE_WHITESPACE :: "string \<Rightarrow> string option" where
  "RE_WHITESPACE chunk =
     (let m = takeWhile (\<lambda>c. c = CHR '' '' \<or> c = tab) chunk
      in if m = [] then None else Some m)"

definition RE_NEWLINE :: "string \<Rightarrow> string option" where
  "RE_NEWLINE chunk =
     (case chunk of [] \<Rightarrow> None | c # cs \<Rightarrow> if c = newline then Some [c] else None)"

definition RE_COMMENT :: "string \<Rightarrow> string option" where
  "RE_COMMENT chunk =
     (case chunk of [] \<Rightarrow> None
      | c # cs \<Rightarrow> if c = CHR ''#'' then Some (c # takeWhile (\<lambda>d. d \<noteq> newline) cs) else None)"

definition RE_DECIMAL :: "string \<Rightarrow> string option" where
  "RE_DECIMAL chunk =
     (let a = takeWhile is_digit chunk in
      if a = [] then None
      else case dropWhile is_digit chunk of [] \<Rightarrow> None
        | d # r \<Rightarrow>
            if d = CHR ''.'' then
              (let b = takeWhile is_digit r in if b = [] then None else Some (a @ d # b))
            else None)"

definition RE_INT :: "string \<Rightarrow> string option" where
  "RE_INT chunk = (let a = takeWhile is_digit chunk in if a = [] then None else Some a)"

text \<open>
  \<open>string_body\<close> matches \<open>([^"\\]|\\.)*"\<close>, the part of \<open>RE_STRING\<close> after the
  opening quote. A backslash takes the next character with it unless that character is a
  line break (\<open>.\<close> does not match one); any other character than a quote stands for
  itself, a line break included.
\<close>

fun string_body :: "string \<Rightarrow> string option" where
  "string_body [] = None"
| "string_body (c # cs) =
     (if c = dquote then Some [c]
      else if c = backslash then
        (case cs of [] \<Rightarrow> None
         | d # ds \<Rightarrow>
             if d = newline then None else map_option (\<lambda>m. c # d # m) (string_body ds))
      else map_option (\<lambda>m. c # m) (string_body cs))"

definition RE_STRING :: "string \<Rightarrow> string option" where
  "RE_STRING chunk =
     (case chunk of [] \<Rightarrow> None
      | c # cs \<Rightarrow> if c = dquote then map_option (\<lambda>m. c # m) (string_body cs) else None)"

definition RE_ID :: "string \<Rightarrow> string option" where
  "RE_ID chunk =
     (case chunk of [] \<Rightarrow> None
      | c # cs \<Rightarrow> if is_alpha c then Some (c # takeWhile is_idchar cs) else None)"

text \<open>
  \<open>advance\<close>, the nested function of \<open>tokenize\<close>: it moves \<open>line\<close> and \<open>col\<close> over every
  character of the matched text and \<open>i\<close> by its length.
\<close>

definition advance :: "string \<Rightarrow> nat \<times> nat \<times> nat \<Rightarrow> nat \<times> nat \<times> nat" where
  "advance matched = (\<lambda>(i, line, col).
     (let (line', col') =
        fold (\<lambda>ch (line, col). if ch = newline then (line + 1, 1) else (line, col + 1))
          matched (line, col)
      in (i + length matched, line', col')))"

text \<open>
  \<open>scan\<close> is one pass through the body of the \<open>while\<close> loop of \<open>tokenize\<close>, up to its
  \<open>continue\<close>: the patterns are tried in the order of the source, and the result is the
  token to append (if the category emits one) with the text handed to \<open>advance\<close>, or
  the lexical error. The loop calls it with \<open>i < n\<close>, so \<open>chunk\<close> is not empty and
  \<open>chunk[0]\<close> exists.
\<close>

definition scan :: "string \<Rightarrow> nat \<Rightarrow> nat \<Rightarrow> error + (token option \<times> string)" where
  "scan chunk line col =
     (case RE_NEWLINE chunk of
        Some m \<Rightarrow> Inr (Some (Token ''NL'' [backslash, CHR ''n''] line col), m)
      | None \<Rightarrow>
     (case RE_WHITESPACE chunk of
        Some m \<Rightarrow> Inr (None, m)
      | None \<Rightarrow>
     (case RE_COMMENT chunk of
        Some m \<Rightarrow> Inr (None, m)
      | None \<Rightarrow>
     (let ch = hd chunk in
      case SYMBOLS ch of
        Some kind \<Rightarrow> Inr (Some (Token kind [ch] line col), [ch])
      | None \<Rightarrow>
     (case RE_STRING chunk of
        Some m \<Rightarrow> Inr (Some (Token ''STRING'' m line col), m)
      | None \<Rightarrow>
     (case RE_DECIMAL chunk of
        Some m \<Rightarrow> Inr (Some (Token ''DECIMAL'' m line col), m)
      | None \<Rightarrow>
     (case RE_INT chunk of
        Some m \<Rightarrow> Inr (Some (Token ''INT'' m line col), m)
      | None \<Rightarrow>
     (case RE_ID chunk of
        Some val \<Rightarrow>
          (let ttype = (if val \<in> RESERVED then ''KW'' else ''ID'')
           in Inr (Some (Token ttype val line col), val))
      | None \<Rightarrow> Inl (Lexical line col (hd chunk))))))))))"

subsection \<open>Every match is a non-empty prefix\<close>

lemma takeWhile_prefix_ex: "\<exists>r. xs = takeWhile P xs @ r"
  by (rule exI [of _ "dropWhile P xs"]) simp

lemma RE_NEWLINE_prefix: "RE_NEWLINE chunk = Some m \<Longrightarrow> m \<noteq> [] \<and> (\<exists>r. chunk = m @ r)"
  by (auto simp: RE_NEWLINE_def split: list.splits if_splits)

lemma RE_WHITESPACE_prefix: "RE_WHITESPACE chunk = Some m \<Longrightarrow> m \<noteq> [] \<and> (\<exists>r. chunk = m @ r)"
  by (auto simp: RE_WHITESPACE_def Let_def takeWhile_prefix_ex split: if_splits)

lemma RE_COMMENT_prefix: "RE_COMMENT chunk = Some m \<Longrightarrow> m \<noteq> [] \<and> (\<exists>r. chunk = m @ r)"
  by (auto simp: RE_COMMENT_def takeWhile_prefix_ex split: list.splits if_splits)

lemma RE_INT_prefix: "RE_INT chunk = Some m \<Longrightarrow> m \<noteq> [] \<and> (\<exists>r. chunk = m @ r)"
  by (auto simp: RE_INT_def Let_def takeWhile_prefix_ex split: if_splits)

lemma RE_ID_prefix: "RE_ID chunk = Some m \<Longrightarrow> m \<noteq> [] \<and> (\<exists>r. chunk = m @ r)"
  by (auto simp: RE_ID_def takeWhile_prefix_ex split: list.splits if_splits)

lemma RE_DECIMAL_prefix: "RE_DECIMAL chunk = Some m \<Longrightarrow> m \<noteq> [] \<and> (\<exists>r. chunk = m @ r)"
proof -
  assume a: "RE_DECIMAL chunk = Some m"
  then obtain d r where dr: "dropWhile is_digit chunk = d # r"
    and m: "m = takeWhile is_digit chunk @ d # takeWhile is_digit r"
    by (auto simp: RE_DECIMAL_def Let_def split: if_splits list.splits)
  have "chunk = takeWhile is_digit chunk @ dropWhile is_digit chunk" by simp
  also have "\<dots> = takeWhile is_digit chunk @ d # (takeWhile is_digit r @ dropWhile is_digit r)"
    by (simp add: dr)
  finally have "chunk = m @ dropWhile is_digit r" by (simp add: m)
  with m show ?thesis by blast
qed

lemma string_body_prefix: "string_body cs = Some m \<Longrightarrow> \<exists>r. cs = m @ r"
  by (induction cs arbitrary: m rule: string_body.induct)
     (auto split: if_splits list.splits)

lemma RE_STRING_prefix: "RE_STRING chunk = Some m \<Longrightarrow> m \<noteq> [] \<and> (\<exists>r. chunk = m @ r)"
  by (auto simp: RE_STRING_def split: list.splits if_splits dest: string_body_prefix)

lemma scan_prefix:
  assumes "scan chunk line col = Inr (tok, m)" and "chunk \<noteq> []"
  shows "m \<noteq> [] \<and> (\<exists>r. chunk = m @ r)"
proof -
  from assms(2) have hd: "\<exists>r. chunk = [hd chunk] @ r" by (cases chunk) auto
  from assms(1) show ?thesis
    unfolding scan_def Let_def
    using RE_NEWLINE_prefix [of chunk m] RE_WHITESPACE_prefix [of chunk m]
      RE_COMMENT_prefix [of chunk m] RE_STRING_prefix [of chunk m]
      RE_DECIMAL_prefix [of chunk m] RE_INT_prefix [of chunk m] RE_ID_prefix [of chunk m] hd
    by (auto split: option.splits)
qed

lemma advance_index: "fst (advance m (i, line, col)) = i + length m"
  by (simp add: advance_def Let_def split: prod.splits)

text \<open>
  The \<open>while i < n\<close> loop of \<open>tokenize\<close>, with its local variables \<open>i\<close>, \<open>line\<close>,
  \<open>col\<close> and \<open>tokens\<close>; after the loop the end-of-input token is appended.
\<close>

function tokenize_loop :: "string \<Rightarrow> nat \<times> nat \<times> nat \<Rightarrow> token list \<Rightarrow> error + token list" where
  "tokenize_loop text (i, line, col) tokens =
     (if i < length text then
        (case scan (drop i text) line col of
           Inl e \<Rightarrow> Inl e
         | Inr (tok, matched) \<Rightarrow>
             tokenize_loop text (advance matched (i, line, col))
               (case tok of None \<Rightarrow> tokens | Some t \<Rightarrow> tokens @ [t]))
      else Inr (tokens @ [Token ''EOF'' [] line col]))"
  by pat_completeness auto
termination
proof (relation "measure (\<lambda>(text, (i, line, col), tokens). length text - i)")
  show "wf (measure (\<lambda>(text, (i, line, col), tokens). length text - i))" by simp
next
  fix src :: string and i line col :: nat and tokens :: "token list" and x tok matched
  assume lt: "i < length src" and sc: "scan (drop i src) line col = Inr x"
    and x: "(tok, matched) = x"
  from lt have "drop i src \<noteq> []" by simp
  with sc x have "matched \<noteq> []" using scan_prefix [of "drop i src" line col tok matched] by simp
  then have "i < fst (advance matched (i, line, col))" by (simp add: advance_index)
  with lt show "((src, advance matched (i, line, col), case tok of None \<Rightarrow> tokens | Some t \<Rightarrow> tokens @ [t]),
         (src, (i, line, col), tokens)) \<in> measure (\<lambda>(text, (i, line, col), tokens). length text - i)"
    by (cases "advance matched (i, line, col)") auto
qed

declare tokenize_loop.simps [simp del]

definition tokenize :: "string \<Rightarrow> error + token list" where
  "tokenize text = tokenize_loop text (0, 1, 1) []"

section \<open>Parser\<close>

text \<open>
  \<open>int\<close> and \<open>float\<close> of Python, on the lexemes that \<open>RE_INT\<close> and \<open>RE_DECIMAL\<close>
  match, which is all the parser applies them to after \<open>tokenize\<close>: a run of digits, and
  two runs of digits around a dot. On any other string the model answers \<open>ValueError\<close>.
  \<open>py_float\<close> gives the exact rational value of the numeral; the parser only compares it
  with zero, and the double nearest to a non-negative rational is not below zero either.
\<close>

definition digit_val :: "char \<Rightarrow> int" where
  "digit_val c = int (of_char c) - 48"

definition digits_val :: "string \<Rightarrow> int" where
  "digits_val v = foldl (\<lambda>a c. 10 * a + digit_val c) 0 v"

definition py_int :: "string \<Rightarrow> error + int" where
  "py_int v = (if v \<noteq> [] \<and> list_all is_digit v then Inr (digits_val v) else Inl ValueError)"

definition py_float :: "string \<Rightarrow> error + rat" where
  "py_float v =
     (let a = takeWhile is_digit v in
      case dropWhile is_digit v of
        [] \<Rightarrow> Inl ValueError
      | d # b \<Rightarrow>
          if a \<noteq> [] \<and> d = CHR ''.'' \<and> b \<noteq> [] \<and> list_all is_digit b
          then Inr (of_int (digits_val (a @ b)) / 10 ^ length b)
          else Inl ValueError)"

text \<open>
  The class \<open>Parser\<close>: the token list, the position in it, and the two sets of
  identifiers defined so far. Every method takes the object and returns it updated, or
  the error it raises.
\<close>

record parser =
  tokens :: "token list"
  pos :: nat
  products_defined :: "string set"
  carousels_defined :: "string set"

definition Parser :: "token list \<Rightarrow> parser" where
  "Parser toks = \<lparr>tokens = toks, pos = 0, products_defined = {}, carousels_defined = {}\<rparr>"

definition current :: "parser \<Rightarrow> error + token" where
  "current self =
     (if pos self < length (tokens self) then Inr (tokens self ! pos self) else Inl IndexError)"

definition match :: "string \<Rightarrow> string option \<Rightarrow> parser \<Rightarrow> error + bool" where
  "match ttype value self =
     and_then (current self) (\<lambda>tok.
       if tok_type tok \<noteq> ttype then Inr False
       else if value \<noteq> None \<and> tok_value tok \<noteq> the value then Inr False
       else Inr True)"

definition consume :: "string \<Rightarrow> string option \<Rightarrow> parser \<Rightarrow> error + (token \<times> parser)" where
  "consume ttype value self =
     and_then (current self) (\<lambda>tok.
     and_then (match ttype value self) (\<lambda>ok.
       if \<not> ok then
         Inl (Syntactic (tok_line tok) (tok_col tok)
                (Expected ttype value (tok_type tok) (tok_value tok)))
       else Inr (tok, self\<lparr>pos := pos self + 1\<rparr>)))"

text \<open>Python's short-circuit \<open>or\<close> of two calls that may raise.\<close>

definition py_or :: "error + bool \<Rightarrow> error + bool \<Rightarrow> error + bool" where
  "py_or a b = and_then a (\<lambda>x. if x then Inr True else b)"

lemma and_then_Inr: "and_then r f = Inr y \<longleftrightarrow> (\<exists>x. r = Inr x \<and> f x = Inr y)"
  by (cases r) (auto simp: and_then_def)

lemma consume_Inr:
  "consume ttype value self = Inr (tok, self') \<Longrightarrow>
     self' = self\<lparr>pos := pos self + 1\<rparr> \<and> pos self < length (tokens self) \<and>
     tok = tokens self ! pos self \<and> tok_type tok = ttype \<and>
     (\<forall>v. value = Some v \<longrightarrow> tok_value tok = v)"
  by (auto simp: consume_def match_def current_def and_then_def split: if_splits)

lemma match_Inr:
  "match ttype value self = Inr b \<Longrightarrow> pos self < length (tokens self)"
  by (auto simp: match_def current_def and_then_def split: if_splits)

lemma match_True:
  "match ttype value self = Inr True \<Longrightarrow> pos self < length (tokens self)"
  by (rule match_Inr)

lemma py_or_Inr: "py_or a b = Inr x \<Longrightarrow> \<exists>y. a = Inr y"
  by (auto simp: py_or_def and_then_Inr)

function skip_nl :: "parser \<Rightarrow> error + parser" where
  "skip_nl self =
     (case match ''NL'' None self of
        Inl e \<Rightarrow> Inl e
      | Inr b \<Rightarrow>
          if b then
            (case consume ''NL'' None self of
               Inl e \<Rightarrow> Inl e
             | Inr (tok, self') \<Rightarrow> skip_nl self')
          else Inr self)"
  by pat_completeness auto
termination
  by (relation "measure (\<lambda>self. length (tokens self) - pos self)")
     (auto dest!: consume_Inr)

declare skip_nl.simps [simp del]

lemma consume_fwd:
  "consume ttype value self = Inr (tok, self') \<Longrightarrow>
     tokens self' = tokens self \<and> pos self < pos self'"
  by (auto dest!: consume_Inr)

lemma skip_nl_tokens_pos:
  "skip_nl self = Inr self' \<Longrightarrow> tokens self' = tokens self \<and> pos self \<le> pos self'"
proof (induction self rule: skip_nl.induct)
  case (1 self)
  show ?case
  proof (cases "match ''NL'' None self")
    case (Inl e)
    with "1.prems" show ?thesis by (simp add: skip_nl.simps [of self])
  next
    case (Inr b)
    show ?thesis
    proof (cases b)
      case False
      with Inr "1.prems" show ?thesis by (simp add: skip_nl.simps [of self])
    next
      case True
      with Inr "1.prems" obtain tok s1 where c: "consume ''NL'' None self = Inr (tok, s1)"
        and r: "skip_nl s1 = Inr self'"
        by (auto simp: skip_nl.simps [of self] split: sum.splits)
      from "1.IH" [OF Inr True c refl r] consume_fwd [OF c]
      show ?thesis by simp
    qed
  qed
qed

lemma skip_nl_fwd:
  "skip_nl self = Inr self' \<Longrightarrow>
     tokens self' = tokens self \<and> pos self \<le> pos self' \<and>
     (match ''NL'' None self = Inr True \<longrightarrow> pos self < pos self')"
  by (frule skip_nl_tokens_pos, subst (asm) skip_nl.simps)
     (auto split: sum.splits dest!: consume_fwd skip_nl_tokens_pos)

definition fin :: "parser \<Rightarrow> error + parser" where
  "fin self =
     and_then (match ''SEMI'' None self) (\<lambda>semi.
       if semi then
         and_then (consume ''SEMI'' None self) (\<lambda>(tok, self). skip_nl self)
       else
         and_then (match ''NL'' None self) (\<lambda>nl.
           if nl then skip_nl self
           else
             and_then (current self) (\<lambda>tok.
               Inl (Syntactic (tok_line tok) (tok_col tok) ExpectedFin))))"

definition parametros :: "parser \<Rightarrow> error + parser" where
  "parametros self =
     and_then (consume ''KW'' (Some ''ESPACIOS'') self) (\<lambda>(tok, self).
     and_then (consume ''COLON'' None self) (\<lambda>(tok, self).
     and_then (consume ''INT'' None self) (\<lambda>(tok, self).
     and_then (py_int (tok_value tok)) (\<lambda>espacios.
       if espacios \<le> 0 then Inl (Semantic EspaciosNotPositive)
       else
     and_then (fin self) (\<lambda>self.
     and_then (consume ''KW'' (Some ''CAPACIDAD'') self) (\<lambda>(tok, self).
     and_then (consume ''COLON'' None self) (\<lambda>(tok, self).
     and_then (consume ''INT'' None self) (\<lambda>(tok, self).
     and_then (py_int (tok_value tok)) (\<lambda>capacidad.
       if capacidad \<le> 0 then Inl (Semantic CapacidadNotPositive)
       else fin self)))))))))"

definition def_producto :: "parser \<Rightarrow> error + parser" where
  "def_producto self =
     and_then (consume ''KW'' (Some ''PRODUCTO'') self) (\<lambda>(tok, self).
     and_then (consume ''ID'' None self) (\<lambda>(tok, self).
     (let pid = tok_value tok in
       if pid \<in> RESERVED then Inl (Semantic (ReservedAsId pid))
       else if pid \<in> products_defined self then Inl (Semantic (DuplicateProducto pid))
       else
     (let self = self\<lparr>products_defined := insert pid (products_defined self)\<rparr> in
     and_then (skip_nl self) (\<lambda>self.
     and_then (consume ''LBRACE'' None self) (\<lambda>(tok, self).
     and_then (skip_nl self) (\<lambda>self.
     and_then (consume ''KW'' (Some ''PRECIO'') self) (\<lambda>(tok, self).
     and_then (consume ''COLON'' None self) (\<lambda>(tok, self).
     and_then (consume ''DECIMAL'' None self) (\<lambda>(tok, self).
     and_then (py_float (tok_value tok)) (\<lambda>precio.
       if precio < 0 then Inl (Semantic PrecioNegative)
       else
     and_then (fin self) (\<lambda>self.
     and_then (consume ''KW'' (Some ''MINIMO'') self) (\<lambda>(tok, self).
     and_then (consume ''COLON'' None self) (\<lambda>(tok, self).
     and_then (consume ''INT'' None self) (\<lambda>(tok, self).
     and_then (py_int (tok_value tok)) (\<lambda>minimo.
     and_then (fin self) (\<lambda>self.
     and_then (consume ''KW'' (Some ''MAXIMO'') self) (\<lambda>(tok, self).
     and_then (consume ''COLON'' None self) (\<lambda>(tok, self).
     and_then (consume ''INT'' None self) (\<lambda>(tok, self).
     and_then (py_int (tok_value tok)) (\<lambda>maximo.
       if minimo > maximo then Inl (Semantic MinimoGtMaximo)
       else
     and_then (fin self) (\<lambda>self.
     and_then (consume ''KW'' (Some ''CRITICIDAD'') self) (\<lambda>(tok, self).
     and_then (consume ''COLON'' None self) (\<lambda>(tok, self).
     and_then (py_or (match ''KW'' (Some ''ALTA'') self)
              (py_or (match ''KW'' (Some ''MEDIA'') self)
                     (match ''KW'' (Some ''BAJA'') self))) (\<lambda>crit.
     and_then
       (if crit then Inr (self\<lparr>pos := pos self + 1\<rparr>)
        else
          and_then (current self) (\<lambda>tok.
            Inl (Syntactic (tok_line tok) (tok_col tok) BadCriticidad))) (\<lambda>self.
     and_then (fin self) (\<lambda>self.
     and_then (consume ''RBRACE'' None self) (\<lambda>(tok, self).
     skip_nl self))))))))))))))))))))))))))))"

lemma fin_fwd:
  "fin self = Inr self' \<Longrightarrow> tokens self' = tokens self \<and> pos self < pos self'"
  unfolding fin_def
  by (auto simp: and_then_Inr split: if_splits dest!: consume_fwd skip_nl_fwd)

lemma def_producto_fwd:
  "def_producto self = Inr self' \<Longrightarrow> tokens self' = tokens self \<and> pos self < pos self'"
  unfolding def_producto_def Let_def
  by (auto simp: and_then_Inr split: if_splits dest!: consume_fwd skip_nl_fwd fin_fwd)

function catalogo :: "parser \<Rightarrow> error + parser" where
  "catalogo self =
     (case match ''KW'' (Some ''PRODUCTO'') self of
        Inl e \<Rightarrow> Inl e
      | Inr b \<Rightarrow>
          if b then
            (case def_producto self of
               Inl e \<Rightarrow> Inl e
             | Inr self' \<Rightarrow>
                 (case skip_nl self' of
                    Inl e \<Rightarrow> Inl e
                  | Inr self'' \<Rightarrow> catalogo self''))
          else Inr self)"
  by pat_completeness auto
termination
  by (relation "measure (\<lambda>self. length (tokens self) - pos self)")
     (auto dest!: def_producto_fwd skip_nl_fwd match_True)

declare catalogo.simps [simp del]

definition def_carrusel :: "parser \<Rightarrow> error + parser" where
  "def_carrusel self =
     and_then (consume ''KW'' (Some ''CARRUSEL'') self) (\<lambda>(tok, self).
     and_then (consume ''ID'' None self) (\<lambda>(tok, self).
     (let cid = tok_value tok in
       if cid \<in> RESERVED then Inl (Semantic (ReservedAsId cid))
       else if cid \<in> carousels_defined self then Inl (Semantic (DuplicateCarrusel cid))
       else
     (let self = self\<lparr>carousels_defined := insert cid (carousels_defined self)\<rparr> in
     and_then (skip_nl self) (\<lambda>self.
     and_then (consume ''LBRACE'' None self) (\<lambda>(tok, self).
     and_then (skip_nl self) (\<lambda>self.
     and_then (parametros self) (\<lambda>self.
     and_then (skip_nl self) (\<lambda>self.
     and_then (catalogo self) (\<lambda>self.
     and_then (skip_nl self) (\<lambda>self.
     and_then (consume ''RBRACE'' None self) (\<lambda>(tok, self).
     skip_nl self))))))))))))"

lemma parametros_fwd:
  "parametros self = Inr self' \<Longrightarrow> tokens self' = tokens self \<and> pos self < pos self'"
  unfolding parametros_def
  by (auto simp: and_then_Inr split: if_splits dest!: consume_fwd fin_fwd)

lemma catalogo_fwd:
  "catalogo self = Inr self' \<Longrightarrow> tokens self' = tokens self \<and> pos self \<le> pos self'"
proof (induction self rule: catalogo.induct)
  case (1 self)
  show ?case
  proof (cases "match ''KW'' (Some ''PRODUCTO'') self = Inr True")
    case False
    with "1.prems" show ?thesis
      by (auto simp: catalogo.simps [of self] split: sum.splits if_splits)
  next
    case True
    with "1.prems" obtain s1 s2 where a: "def_producto self = Inr s1"
      and b: "skip_nl s1 = Inr s2" and c: "catalogo s2 = Inr self'"
      by (auto simp: catalogo.simps [of self] split: sum.splits)
    from "1.IH" [OF True TrueI a b c] def_producto_fwd [OF a] skip_nl_fwd [OF b]
    show ?thesis by simp
  qed
qed

lemma def_carrusel_fwd:
  "def_carrusel self = Inr self' \<Longrightarrow> tokens self' = tokens self \<and> pos self < pos self'"
  unfolding def_carrusel_def Let_def
  by (auto simp: and_then_Inr split: if_splits
        dest!: consume_fwd skip_nl_fwd parametros_fwd catalogo_fwd)

function definiciones :: "parser \<Rightarrow> error + parser" where
  "definiciones self =
     (case match ''KW'' (Some ''CARRUSEL'') self of
        Inl e \<Rightarrow> Inl e
      | Inr b \<Rightarrow>
          if b then
            (case def_carrusel self of
               Inl e \<Rightarrow> Inl e
             | Inr self' \<Rightarrow>
                 (case skip_nl self' of
                    Inl e \<Rightarrow> Inl e
                  | Inr self'' \<Rightarrow> definiciones self''))
          else Inr self)"
  by pat_completeness auto
termination
  by (relation "measure (\<lambda>self. length (tokens self) - pos self)")
     (auto dest!: def_carrusel_fwd skip_nl_fwd match_True)

declare definiciones.simps [simp del]

definition check_tx_semantics :: "parser \<Rightarrow> string \<Rightarrow> int \<Rightarrow> error + unit" where
  "check_tx_semantics self pid qty =
     (if pid \<notin> products_defined self then Inl (Semantic (UndefinedProducto pid))
      else if qty \<le> 0 then Inl (Semantic CantidadNotPositive)
      else Inr ())"

definition tx :: "parser \<Rightarrow> error + parser" where
  "tx self =
     and_then (match ''KW'' (Some ''RETIRAR'') self) (\<lambda>retirar.
       if retirar then
         and_then (consume ''KW'' (Some ''RETIRAR'') self) (\<lambda>(tok, self).
         and_then (consume ''LPAREN'' None self) (\<lambda>(tok, self).
         and_then (consume ''ID'' None self) (\<lambda>(tok, self).
         (let pid = tok_value tok in
         and_then (consume ''COMMA'' None self) (\<lambda>(tok, self).
         and_then (consume ''INT'' None self) (\<lambda>(tok, self).
         and_then (py_int (tok_value tok)) (\<lambda>qty.
         and_then (consume ''RPAREN'' None self) (\<lambda>(tok, self).
         and_then (check_tx_semantics self pid qty) (\<lambda>u. Inr self)))))))))
       else
     and_then (match ''KW'' (Some ''RESURTIR'') self) (\<lambda>resurtir.
       if resurtir then
         and_then (consume ''KW'' (Some ''RESURTIR'') self) (\<lambda>(tok, self).
         and_then (consume ''LPAREN'' None self) (\<lambda>(tok, self).
         and_then (consume ''ID'' None self) (\<lambda>(tok, self).
         (let pid = tok_value tok in
         and_then (consume ''COMMA'' None self) (\<lambda>(tok, self).
         and_then (consume ''INT'' None self) (\<lambda>(tok, self).
         and_then (py_int (tok_value tok)) (\<lambda>qty.
         and_then (consume ''RPAREN'' None self) (\<lambda>(tok, self).
         and_then (check_tx_semantics self pid qty) (\<lambda>u. Inr self)))))))))
       else
     and_then (match ''KW'' (Some ''CONTAR'') self) (\<lambda>contar.
       if contar then
         and_then (consume ''KW'' (Some ''CONTAR'') self) (\<lambda>(tok, self).
         and_then (consume ''LPAREN'' None self) (\<lambda>(tok, self).
         and_then (consume ''ID'' None self) (\<lambda>(tok, self).
         (let pid = tok_value tok in
         and_then (consume ''RPAREN'' None self) (\<lambda>(tok, self).
         and_then (check_tx_semantics self pid 1) (\<lambda>u. Inr self))))))
       else
         and_then (current self) (\<lambda>tok.
           Inl (Syntactic (tok_line tok) (tok_col tok) ExpectedTx)))))"

lemma tx_fwd:
  "tx self = Inr self' \<Longrightarrow> tokens self' = tokens self \<and> pos self < pos self'"
  unfolding tx_def Let_def
  by (auto simp: and_then_Inr split: if_splits dest!: consume_fwd)

text \<open>The \<open>while\<close> loop of \<open>lista_tx\<close>, after its first \<open>tx\<close>.\<close>

function lista_tx_while :: "parser \<Rightarrow> error + parser" where
  "lista_tx_while self =
     (case match ''COMMA'' None self of
        Inl e \<Rightarrow> Inl e
      | Inr b \<Rightarrow>
          if b then
            (case consume ''COMMA'' None self of
               Inl e \<Rightarrow> Inl e
             | Inr (tok, self1) \<Rightarrow>
                 (case skip_nl self1 of
                    Inl e \<Rightarrow> Inl e
                  | Inr self2 \<Rightarrow>
                      (case tx self2 of
                         Inl e \<Rightarrow> Inl e
                       | Inr self3 \<Rightarrow> lista_tx_while self3)))
          else Inr self)"
  by pat_completeness auto
termination
  by (relation "measure (\<lambda>self. length (tokens self) - pos self)")
     (auto dest!: consume_fwd skip_nl_fwd tx_fwd match_True)

declare lista_tx_while.simps [simp del]

definition lista_tx :: "parser \<Rightarrow> error + parser" where
  "lista_tx self = and_then (tx self) lista_tx_while"

definition bloque_transacciones :: "parser \<Rightarrow> error + parser" where
  "bloque_transacciones self =
     and_then (consume ''KW'' (Some ''TRANSACCIONES'') self) (\<lambda>(tok, self).
     and_then (consume ''COLON'' None self) (\<lambda>(tok, self).
     and_then (consume ''LBRACKET'' None self) (\<lambda>(tok, self).
     and_then (skip_nl self) (\<lambda>self.
     and_then (match ''RBRACKET'' None self) (\<lambda>closing.
     and_then (if \<not> closing then lista_tx self else Inr self) (\<lambda>self.
     and_then (skip_nl self) (\<lambda>self.
     and_then (consume ''RBRACKET'' None self) (\<lambda>(tok, self).
     and_then (py_or (match ''SEMI'' None self) (match ''NL'' None self)) (\<lambda>terminated.
       if terminated then fin self
       else
         and_then (current self) (\<lambda>tok.
           Inl (Syntactic (tok_line tok) (tok_col tok) MissingFinAfterBracket)))))))))))"

definition consulta :: "parser \<Rightarrow> error + parser" where
  "consulta self =
     and_then (match ''KW'' (Some ''ESTADO'') self) (\<lambda>estado.
       if estado then
         and_then (consume ''KW'' (Some ''ESTADO'') self) (\<lambda>(tok, self). Inr self)
       else
     and_then (match ''KW'' (Some ''ESTADISTICAS'') self) (\<lambda>estadisticas.
       if estadisticas then
         and_then (consume ''KW'' (Some ''ESTADISTICAS'') self) (\<lambda>(tok, self). Inr self)
       else
     and_then (match ''KW'' (Some ''REPORTE'') self) (\<lambda>reporte.
       if reporte then
         and_then (consume ''KW'' (Some ''REPORTE'') self) (\<lambda>(tok, self).
         and_then (consume ''LPAREN'' None self) (\<lambda>(tok, self).
         and_then (consume ''STRING'' None self) (\<lambda>(tok, self).
         and_then (consume ''RPAREN'' None self) (\<lambda>(tok, self). Inr self))))
       else
         and_then (current self) (\<lambda>tok.
           Inl (Syntactic (tok_line tok) (tok_col tok) BadConsulta)))))"

lemma consulta_fwd:
  "consulta self = Inr self' \<Longrightarrow> tokens self' = tokens self \<and> pos self < pos self'"
  unfolding consulta_def
  by (auto simp: and_then_Inr split: if_splits dest!: consume_fwd)

text \<open>The \<open>while\<close> loop of \<open>simulacion\<close> over the queries.\<close>

function simulacion_while :: "parser \<Rightarrow> error + parser" where
  "simulacion_while self =
     (case py_or (match ''KW'' (Some ''ESTADO'') self)
            (py_or (match ''KW'' (Some ''ESTADISTICAS'') self)
                   (match ''KW'' (Some ''REPORTE'') self)) of
        Inl e \<Rightarrow> Inl e
      | Inr b \<Rightarrow>
          if b then
            (case consulta self of
               Inl e \<Rightarrow> Inl e
             | Inr self1 \<Rightarrow>
                 (case fin self1 of
                    Inl e \<Rightarrow> Inl e
                  | Inr self2 \<Rightarrow>
                      (case skip_nl self2 of
                         Inl e \<Rightarrow> Inl e
                       | Inr self3 \<Rightarrow> simulacion_while self3)))
          else Inr self)"
  by pat_completeness auto
termination
  by (relation "measure (\<lambda>self. length (tokens self) - pos self)")
     (auto dest!: consulta_fwd fin_fwd skip_nl_fwd py_or_Inr match_Inr)

declare simulacion_while.simps [simp del]

definition simulacion :: "parser \<Rightarrow> error + parser" where
  "simulacion self =
     and_then (consume ''KW'' (Some ''SIMULAR'') self) (\<lambda>(tok, self).
     and_then (skip_nl self) (\<lambda>self.
     and_then (consume ''LBRACE'' None self) (\<lambda>(tok, self).
     and_then (skip_nl self) (\<lambda>self.
     and_then (bloque_transacciones self) (\<lambda>self.
     and_then (skip_nl self) (\<lambda>self.
     and_then (simulacion_while self) (\<lambda>self.
     and_then (consume ''RBRACE'' None self) (\<lambda>(tok, self). Inr self))))))))"

definition programa :: "parser \<Rightarrow> error + parser" where
  "programa self =
     and_then (skip_nl self) (\<lambda>self.
     and_then (definiciones self) (\<lambda>self.
     and_then (skip_nl self) (\<lambda>self.
     and_then (simulacion self) (\<lambda>self.
     and_then (skip_nl self) (\<lambda>self.
     and_then (consume ''EOF'' None self) (\<lambda>(tok, self). Inr self))))))"

text \<open>
  \<open>main\<close> from the point where the file has been read: the text is tokenized, a
  \<open>Parser\<close> is built on the tokens and \<open>programa\<close> runs. \<open>Inr ()\<close> is the run that
  prints the confirmation; \<open>Inl\<close> of a lexical, syntactic or semantic error is the run
  that prints the message and exits with status 2.
\<close>

definition main :: "string \<Rightarrow> error + unit" where
  "main text =
     and_then (tokenize text) (\<lambda>tokens.
     and_then (programa (Parser tokens)) (\<lambda>parser. Inr ()))"

section \<open>Vocabulary of the statements\<close>

text \<open>
  The statements below describe a parser state by what is left to read:
  \<open>remaining self\<close> is \<open>tokens[pos:]\<close>. \<open>skip k self\<close> is the state after \<open>k\<close> more
  tokens have been consumed, \<open>is_kw w\<close> recognises the token of the reserved word
  \<open>w\<close>, \<open>is_nl\<close> a line-break token, and
  \<open>fin_tokens ts\<close> says that \<open>ts\<close> is a statement terminator in one of its two
  forms: a semicolon and then any number of line breaks, or one or more line breaks.
\<close>

definition remaining :: "parser \<Rightarrow> token list" where
  "remaining self = drop (pos self) (tokens self)"

definition is_kw :: "string \<Rightarrow> token \<Rightarrow> bool" where
  "is_kw w t \<longleftrightarrow> tok_type t = ''KW'' \<and> tok_value t = w"

definition is_nl :: "token \<Rightarrow> bool" where
  "is_nl t \<longleftrightarrow> tok_type t = ''NL''"

definition skip :: "nat \<Rightarrow> parser \<Rightarrow> parser" where
  "skip k self = self\<lparr>pos := pos self + k\<rparr>"

definition fin_tokens :: "token list \<Rightarrow> bool" where
  "fin_tokens ts = (case ts of [] \<Rightarrow> False
     | t # r \<Rightarrow> (tok_type t = ''SEMI'' \<or> tok_type t = ''NL'') \<and> list_all is_nl r)"

text \<open>
  \<open>lexed t\<close> collects what the lexer guarantees of a token it emits: a lexeme that is
  a reserved word has kind \<open>KW\<close>, an \<open>INT\<close> lexeme is a non-empty run of digits, and a
  \<open>DECIMAL\<close> lexeme is a numeral that \<open>float\<close> reads as a number not below zero.
\<close>

definition lexed :: "token \<Rightarrow> bool" where
  "lexed t \<longleftrightarrow>
     (tok_value t \<in> RESERVED \<longrightarrow> tok_type t = ''KW'') \<and>
     (tok_type t = ''INT'' \<longrightarrow> tok_value t \<noteq> [] \<and> list_all is_digit (tok_value t)) \<and>
     (tok_type t = ''DECIMAL'' \<longrightarrow>
        (case py_float (tok_value t) of Inl e \<Rightarrow> False | Inr q \<Rightarrow> 0 \<le> q))"

section \<open>Facts about the lexer\<close>

lemma alpha_not_digit: "is_alpha c \<Longrightarrow> \<not> is_digit c"
  by (simp add: is_alpha_def is_digit_def less_eq_char_def) linarith

lemma RESERVED_alpha: "\<forall>w \<in> RESERVED. w \<noteq> [] \<and> is_alpha (hd w)"
  unfolding RESERVED_def by (simp add: is_alpha_def)

lemma not_digit_special:
  "\<not> is_digit newline" "\<not> is_digit tab" "\<not> is_digit (CHR '' '')" "\<not> is_digit (CHR ''#'')"
  "\<not> is_digit dquote" "\<not> is_digit (CHR ''.'')"
  by (simp_all add: is_digit_def newline_def tab_def dquote_def)

lemma SYMBOLS_Some: "SYMBOLS c = Some k \<Longrightarrow> c \<in> set ''{}()[]:,;''"
  by (simp add: SYMBOLS_def split: if_splits)

lemma SYMBOLS_not_digit: "is_digit c \<Longrightarrow> SYMBOLS c = None"
proof (cases "SYMBOLS c")
  case (Some k)
  assume d: "is_digit c"
  have "\<forall>x \<in> set ''{}()[]:,;''. \<not> is_digit x" by (simp add: is_digit_def)
  with SYMBOLS_Some [OF Some] d show ?thesis by blast
qed simp

lemma SYMBOLS_kind:
  "SYMBOLS c = Some k \<Longrightarrow>
     k \<in> {''LBRACE'', ''RBRACE'', ''LPAREN'', ''RPAREN'', ''LBRACKET'', ''RBRACKET'',
          ''COLON'', ''COMMA'', ''SEMI''}"
  by (simp add: SYMBOLS_def split: if_splits)

lemma digit_val_nonneg: "is_digit c \<Longrightarrow> 0 \<le> digit_val c"
  by (simp add: is_digit_def digit_val_def less_eq_char_def)

lemma foldl_digits_nonneg:
  "list_all is_digit v \<Longrightarrow> 0 \<le> acc \<Longrightarrow> 0 \<le> foldl (\<lambda>a c. 10 * a + digit_val c) acc v"
  by (induction v arbitrary: acc) (simp_all add: digit_val_nonneg)

lemma digits_val_nonneg: "list_all is_digit v \<Longrightarrow> 0 \<le> digits_val v"
  by (simp add: digits_val_def foldl_digits_nonneg)

lemma takeWhile_all: "list_all P (takeWhile P xs)"
  by (induction xs) simp_all

lemma RE_INT_lexeme: "RE_INT chunk = Some m \<Longrightarrow> m \<noteq> [] \<and> list_all is_digit m"
  by (auto simp: RE_INT_def Let_def takeWhile_all split: if_splits)

lemma py_int_digits: "v \<noteq> [] \<Longrightarrow> list_all is_digit v \<Longrightarrow> py_int v = Inr (digits_val v)"
  by (simp add: py_int_def)

lemma RE_DECIMAL_lexeme:
  "RE_DECIMAL chunk = Some m \<Longrightarrow>
     \<exists>a b. m = a @ CHR ''.'' # b \<and> a \<noteq> [] \<and> b \<noteq> [] \<and> list_all is_digit a \<and> list_all is_digit b"
proof -
  assume "RE_DECIMAL chunk = Some m"
  then obtain r where m: "m = takeWhile is_digit chunk @ CHR ''.'' # takeWhile is_digit r"
    and ne: "takeWhile is_digit chunk \<noteq> []" "takeWhile is_digit r \<noteq> []"
    by (auto simp: RE_DECIMAL_def Let_def split: if_splits list.splits)
  show ?thesis
    by (rule exI [of _ "takeWhile is_digit chunk"], rule exI [of _ "takeWhile is_digit r"])
       (simp add: m ne takeWhile_all)
qed

lemma py_float_decimal:
  assumes "a \<noteq> []" "b \<noteq> []" "list_all is_digit a" "list_all is_digit b"
  shows "py_float (a @ CHR ''.'' # b) = Inr (of_int (digits_val (a @ b)) / 10 ^ length b)"
proof -
  have t: "takeWhile is_digit (a @ CHR ''.'' # b) = a"
    using assms(3) by (simp add: list_all_iff not_digit_special)
  have d: "dropWhile is_digit (a @ CHR ''.'' # b) = CHR ''.'' # b"
    using assms(3) by (simp add: list_all_iff not_digit_special)
  show ?thesis using assms by (simp add: py_float_def t d)
qed

lemma py_float_nonneg:
  assumes "RE_DECIMAL chunk = Some m"
  shows "\<exists>q. py_float m = Inr q \<and> 0 \<le> q"
proof -
  from RE_DECIMAL_lexeme [OF assms] obtain a b where m: "m = a @ CHR ''.'' # b"
    and ab: "a \<noteq> []" "b \<noteq> []" "list_all is_digit a" "list_all is_digit b" by blast
  from ab have "0 \<le> digits_val (a @ b)" by (intro digits_val_nonneg) simp
  with py_float_decimal [OF ab] m show ?thesis by simp
qed


lemma not_reserved_hd: "v \<noteq> [] \<Longrightarrow> \<not> is_alpha (hd v) \<Longrightarrow> v \<notin> RESERVED"
  using RESERVED_alpha by blast

lemma not_alpha_special:
  "\<not> is_alpha backslash" "\<not> is_alpha dquote"
  by (simp_all add: is_alpha_def backslash_def dquote_def)

lemma SYMBOLS_not_alpha: "SYMBOLS c = Some k \<Longrightarrow> \<not> is_alpha c"
proof -
  assume "SYMBOLS c = Some k"
  then have "c \<in> set ''{}()[]:,;''" by (rule SYMBOLS_Some)
  moreover have "\<forall>x \<in> set ''{}()[]:,;''. \<not> is_alpha x" by (simp add: is_alpha_def)
  ultimately show ?thesis by blast
qed

lemma RE_STRING_hd: "RE_STRING chunk = Some m \<Longrightarrow> m \<noteq> [] \<and> hd m = dquote"
  by (auto simp: RE_STRING_def split: list.splits if_splits)

lemma RE_INT_hd: "RE_INT chunk = Some m \<Longrightarrow> m \<noteq> [] \<and> is_digit (hd m)"
  by (cases m) (auto dest!: RE_INT_lexeme)

lemma RE_DECIMAL_hd: "RE_DECIMAL chunk = Some m \<Longrightarrow> m \<noteq> [] \<and> is_digit (hd m)"
proof -
  assume "RE_DECIMAL chunk = Some m"
  from RE_DECIMAL_lexeme [OF this] obtain a b where "m = a @ CHR ''.'' # b" "a \<noteq> []"
    "list_all is_digit a" by blast
  then show ?thesis by (cases a) simp_all
qed

lemma digit_not_alpha: "is_digit c \<Longrightarrow> \<not> is_alpha c"
  using alpha_not_digit by blast

lemma scan_lexed:
  assumes "scan chunk line col = Inr (Some t, m)"
  shows "lexed t \<and> tok_type t \<noteq> ''EOF''"
proof (cases "RE_NEWLINE chunk")
  case (Some a)
  with assms have "t = Token ''NL'' [backslash, CHR ''n''] line col" by (auto simp: scan_def)
  then show ?thesis by (simp add: lexed_def not_reserved_hd not_alpha_special)
next
  case nl: None
  show ?thesis
  proof (cases "RE_WHITESPACE chunk \<noteq> None \<or> RE_COMMENT chunk \<noteq> None")
    case True
    with nl assms show ?thesis by (auto simp: scan_def split: option.splits)
  next
    case False
    then have ws: "RE_WHITESPACE chunk = None" and cm: "RE_COMMENT chunk = None" by simp_all
    show ?thesis
    proof (cases "SYMBOLS (hd chunk)")
      case (Some kind)
      with nl ws cm assms have t: "t = Token kind [hd chunk] line col"
        by (auto simp: scan_def Let_def)
      from SYMBOLS_kind [OF Some] SYMBOLS_not_alpha [OF Some] t show ?thesis
        by (auto simp: lexed_def not_reserved_hd)
    next
      case sy: None
      show ?thesis
      proof (cases "RE_STRING chunk")
        case (Some v)
        with nl ws cm sy assms have t: "t = Token ''STRING'' v line col" by (auto simp: scan_def)
        from RE_STRING_hd [OF Some] t show ?thesis
          by (simp add: lexed_def not_reserved_hd not_alpha_special)
      next
        case st: None
        show ?thesis
        proof (cases "RE_DECIMAL chunk")
          case (Some v)
          with nl ws cm sy st assms have t: "t = Token ''DECIMAL'' v line col"
            by (auto simp: scan_def)
          from RE_DECIMAL_hd [OF Some] py_float_nonneg [OF Some] t show ?thesis
            by (auto simp: lexed_def not_reserved_hd digit_not_alpha)
        next
          case de: None
          show ?thesis
          proof (cases "RE_INT chunk")
            case (Some v)
            with nl ws cm sy st de assms have t: "t = Token ''INT'' v line col"
              by (auto simp: scan_def)
            from RE_INT_hd [OF Some] RE_INT_lexeme [OF Some] t show ?thesis
              by (auto simp: lexed_def not_reserved_hd digit_not_alpha)
          next
            case it: None
            with nl ws cm sy st de assms show ?thesis
              by (auto simp: scan_def lexed_def Let_def split: option.splits if_splits)
          qed
        qed
      qed
    qed
  qed
qed

lemma scan_error: "scan chunk line col = Inl e \<Longrightarrow> e = Lexical line col (hd chunk)"
  by (simp add: scan_def Let_def split: option.splits)

lemma tokenize_loop_inv:
  assumes P: "\<And>chunk line col t m. scan chunk line col = Inr (Some t, m) \<Longrightarrow> P t"
  shows "list_all P acc \<Longrightarrow> tokenize_loop src st acc = Inr toks \<Longrightarrow>
     \<exists>ts line col. toks = ts @ [Token ''EOF'' [] line col] \<and> list_all P ts"
proof (induction src st acc rule: tokenize_loop.induct)
  case (1 src i line col acc)
  show ?case
  proof (cases "i < length src")
    case False
    with "1.prems" show ?thesis by (auto simp: tokenize_loop.simps [of src i line col acc])
  next
    case True
    with "1.prems"(2) obtain tok matched where sc: "scan (drop i src) line col = Inr (tok, matched)"
      and rec: "tokenize_loop src (advance matched (i, line, col))
                  (case tok of None \<Rightarrow> acc | Some t \<Rightarrow> acc @ [t]) = Inr toks"
      by (auto simp: tokenize_loop.simps [of src i line col acc] split: sum.splits)
    have "list_all P (case tok of None \<Rightarrow> acc | Some t \<Rightarrow> acc @ [t])"
      using "1.prems"(1) P sc by (cases tok) auto
    from "1.IH" [OF True sc refl this rec] show ?thesis .
  qed
qed

lemma tokenize_loop_error:
  "tokenize_loop src st acc = Inl e \<Longrightarrow> \<exists>line col ch. e = Lexical line col ch"
proof (induction src st acc rule: tokenize_loop.induct)
  case (1 src i line col acc)
  from "1.prems" have lt: "i < length src"
    by (auto simp: tokenize_loop.simps [of src i line col acc] split: if_splits)
  show ?case
  proof (cases "scan (drop i src) line col")
    case (Inl e')
    with lt "1.prems" show ?thesis
      by (auto simp: tokenize_loop.simps [of src i line col acc] dest: scan_error)
  next
    case (Inr x)
    obtain tok matched where x: "x = (tok, matched)" by (cases x)
    with lt Inr "1.prems" have "tokenize_loop src (advance matched (i, line, col))
        (case tok of None \<Rightarrow> acc | Some t \<Rightarrow> acc @ [t]) = Inl e"
      by (simp add: tokenize_loop.simps [of src i line col acc])
    from "1.IH" [OF lt Inr x [symmetric] this] show ?thesis .
  qed
qed

lemma tokenize_shape:
  assumes "tokenize src = Inr toks"
  shows "\<exists>ts line col. toks = ts @ [Token ''EOF'' [] line col] \<and>
     list_all (\<lambda>t. lexed t \<and> tok_type t \<noteq> ''EOF'') ts"
  using assms unfolding tokenize_def
  by (intro tokenize_loop_inv [where acc = "[]"]) (auto dest: scan_lexed)

lemma nil_not_reserved: "[] \<notin> RESERVED"
  using RESERVED_alpha by blast

lemma tokenize_lexed: "tokenize src = Inr toks \<Longrightarrow> list_all lexed toks"
  by (drule tokenize_shape) (auto simp: list_all_iff lexed_def nil_not_reserved)

section \<open>Facts about the parser\<close>

lemma remaining_skip [simp]: "remaining (skip k s) = drop k (remaining s)"
  by (simp add: remaining_def skip_def add.commute)

lemma skip_fields [simp]:
  "tokens (skip k s) = tokens s" "products_defined (skip k s) = products_defined s"
  "carousels_defined (skip k s) = carousels_defined s"
  by (simp_all add: skip_def)

lemma pos_skip: "pos (skip k s) = pos s + k"
  by (simp add: skip_def)

lemma skip_intro: "s\<lparr>pos := pos s + k\<rparr> = skip k s" "s\<lparr>pos := Suc (pos s)\<rparr> = skip 1 s"
  by (simp_all add: skip_def)

lemma skip_skip: "skip a (skip b s) = skip (b + a) s"
  by (simp add: skip_def add.assoc)

lemma remaining_upd [simp]:
  "remaining (s\<lparr>products_defined := P\<rparr>) = remaining s"
  "remaining (s\<lparr>carousels_defined := C\<rparr>) = remaining s"
  by (simp_all add: remaining_def)

lemma and_then_simps [simp]: "and_then (Inl e) f = Inl e" "and_then (Inr x) f = f x"
  by (simp_all add: and_then_def)

lemma current_remaining:
  "current s = (case remaining s of [] \<Rightarrow> Inl IndexError | t # r \<Rightarrow> Inr t)"
  by (auto simp: current_def remaining_def split: list.splits simp: hd_drop_conv_nth[symmetric])

lemma match_remaining:
  "match ty v s = (case remaining s of [] \<Rightarrow> Inl IndexError
     | t # r \<Rightarrow> Inr (tok_type t = ty \<and> (\<forall>x. v = Some x \<longrightarrow> tok_value t = x)))"
  by (cases "remaining s"; cases v) (simp_all add: match_def current_remaining)

lemma consume_remaining:
  "consume ty v s = (case remaining s of [] \<Rightarrow> Inl IndexError
     | t # r \<Rightarrow> if tok_type t = ty \<and> (\<forall>x. v = Some x \<longrightarrow> tok_value t = x) then Inr (t, skip 1 s)
        else Inl (Syntactic (tok_line t) (tok_col t) (Expected ty v (tok_type t) (tok_value t))))"
  by (cases "remaining s") (simp_all add: consume_def match_remaining current_remaining skip_def)


lemma skip_nl_remaining:
  "skip_nl s = (let k = length (takeWhile is_nl (remaining s)) in
      if k < length (remaining s) then Inr (skip k s) else Inl IndexError)"
proof (induction s rule: skip_nl.induct)
  case (1 self)
  show ?case
  proof (cases "remaining self")
    case Nil
    then show ?thesis by (simp add: skip_nl.simps [of self] match_remaining)
  next
    case (Cons t r)
    show ?thesis
    proof (cases "is_nl t")
      case False
      with Cons show ?thesis
        by (simp add: skip_nl.simps [of self] match_remaining is_nl_def skip_def)
    next
      case True
      with Cons have m: "match ''NL'' None self = Inr True"
        and c: "consume ''NL'' None self = Inr (t, skip 1 self)"
        by (simp_all add: match_remaining consume_remaining is_nl_def)
      have "skip_nl self = skip_nl (skip 1 self)"
        by (simp add: skip_nl.simps [of self] m c)
      also have "\<dots> = (let k = length (takeWhile is_nl (remaining (skip 1 self))) in
          if k < length (remaining (skip 1 self)) then Inr (skip k (skip 1 self)) else Inl IndexError)"
        by (rule "1.IH" [OF m TrueI c refl])
      finally show ?thesis using Cons True
        by (simp add: Let_def skip_skip)
    qed
  qed
qed

lemma fin_remaining:
  "fin s = (case remaining s of [] \<Rightarrow> Inl IndexError
     | t # r \<Rightarrow> if tok_type t = ''SEMI'' then skip_nl (skip 1 s)
        else if is_nl t then skip_nl s
        else Inl (Syntactic (tok_line t) (tok_col t) ExpectedFin))"
  by (simp add: fin_def match_remaining consume_remaining current_remaining is_nl_def split: list.splits)

lemma takeWhile_nl_run:
  "list_all is_nl nls \<Longrightarrow> \<not> is_nl t \<Longrightarrow> takeWhile is_nl (nls @ t # r) = nls"
  by (simp add: list_all_iff)

lemma skip_nl_run:
  "remaining s = nls @ t # r \<Longrightarrow> list_all is_nl nls \<Longrightarrow> \<not> is_nl t \<Longrightarrow>
     skip_nl s = Inr (skip (length nls) s)"
  by (simp add: skip_nl_remaining takeWhile_nl_run)

lemma fin_run:
  assumes "remaining s = ts @ t # r" and "fin_tokens ts" and "\<not> is_nl t"
  shows "fin s = Inr (skip (length ts) s)"
proof (cases ts)
  case Nil
  with assms(2) show ?thesis by (simp add: fin_tokens_def)
next
  case (Cons t0 nls)
  with assms(2) have nls: "list_all is_nl nls" and t0: "tok_type t0 = ''SEMI'' \<or> is_nl t0"
    by (simp_all add: fin_tokens_def is_nl_def)
  show ?thesis
  proof (cases "tok_type t0 = ''SEMI''")
    case True
    have "remaining (skip 1 s) = nls @ t # r" using assms(1) Cons by simp
    from skip_nl_run [OF this nls assms(3)] True assms(1) Cons show ?thesis
      by (simp add: fin_remaining skip_skip)
  next
    case False
    with t0 have nl: "is_nl t0" by simp
    have "remaining s = (t0 # nls) @ t # r" using assms(1) Cons by simp
    from skip_nl_run [OF this _ assms(3)] nls nl False assms(1) Cons show ?thesis
      by (simp add: fin_remaining)
  qed
qed

subsection \<open>Errors that no text can cause\<close>

text \<open>
  \<open>dead_error\<close> singles out three errors: the reserved-word error of the two
  definition methods, the negative-price error, and the \<open>ValueError\<close> of \<open>int\<close> and
  \<open>float\<close>. \<open>post P r\<close> says of a result \<open>r\<close> that it is an error other than these
  three, or a value that satisfies \<open>P\<close>. On tokens that the lexer produced, every
  method of the parser has such a result; the rules below carry that through
  \<open>and_then\<close>, one method at a time.
\<close>

fun dead_error :: "error \<Rightarrow> bool" where
  "dead_error (Semantic (ReservedAsId w)) = True"
| "dead_error (Semantic PrecioNegative) = True"
| "dead_error ValueError = True"
| "dead_error e = False"

definition post :: "('a \<Rightarrow> bool) \<Rightarrow> error + 'a \<Rightarrow> bool" where
  "post P r \<longleftrightarrow> (case r of Inl e \<Rightarrow> \<not> dead_error e | Inr x \<Rightarrow> P x)"

lemma post_Inl: "\<not> dead_error e \<Longrightarrow> post P (Inl e)"
  by (simp add: post_def)

lemma post_Inr: "P x \<Longrightarrow> post P (Inr x)"
  by (simp add: post_def)

lemma post_if: "(c \<Longrightarrow> post P a) \<Longrightarrow> (\<not> c \<Longrightarrow> post P b) \<Longrightarrow> post P (if c then a else b)"
  by simp

lemma post_and_then:
  "post P r \<Longrightarrow> (\<And>x. P x \<Longrightarrow> post Q (k x)) \<Longrightarrow> post Q (and_then r k)"
  by (cases r) (simp_all add: post_def)

lemma post_state_bind:
  fixes r :: "error + parser"
  shows "post (\<lambda>s'. tokens s' = ts) r \<Longrightarrow> (\<And>s'. tokens s' = ts \<Longrightarrow> post Q (k s')) \<Longrightarrow>
     post Q (and_then r k)"
  by (rule post_and_then)

lemma remaining_hd_in: "remaining s = t # r \<Longrightarrow> t \<in> set (tokens s)"
  unfolding remaining_def by (metis in_set_dropD list.set_intros(1))

lemma post_consume:
  "tokens s = ts \<Longrightarrow> list_all lexed ts \<Longrightarrow>
     post (\<lambda>(tok, s'). tokens s' = ts \<and> lexed tok \<and> tok_type tok = ty) (consume ty v s)"
  by (cases "remaining s")
     (auto simp: post_def consume_remaining list_all_iff dest: remaining_hd_in split: if_splits)

lemma post_consume_bind:
  assumes "tokens s = ts" "list_all lexed ts"
    and "\<And>tok s'. tokens s' = ts \<Longrightarrow> lexed tok \<Longrightarrow> tok_type tok = ty \<Longrightarrow> post Q (k tok s')"
  shows "post Q (and_then (consume ty v s) (case_prod k))"
  by (rule post_and_then [OF post_consume [OF assms(1,2)]]) (auto intro: assms(3))

lemma post_match: "post (\<lambda>b. True) (match ty v s)"
  by (cases "remaining s") (simp_all add: post_def match_remaining)

lemma post_py_or: "post (\<lambda>b. True) a \<Longrightarrow> post (\<lambda>b. True) b \<Longrightarrow> post (\<lambda>b. True) (py_or a b)"
  by (cases a) (auto simp: post_def py_or_def)

lemma post_bool_bind:
  fixes r :: "error + bool"
  shows "post (\<lambda>b. True) r \<Longrightarrow> (\<And>b. post Q (k b)) \<Longrightarrow> post Q (and_then r k)"
  by (rule post_and_then)

lemma post_current_bind: "(\<And>tok. post Q (k tok)) \<Longrightarrow> post Q (and_then (current s) k)"
  by (cases "remaining s") (simp_all add: post_def current_remaining)

lemma post_py_int_bind:
  "lexed tok \<Longrightarrow> tok_type tok = ''INT'' \<Longrightarrow> (\<And>n. post Q (k n)) \<Longrightarrow>
     post Q (and_then (py_int (tok_value tok)) k)"
  by (simp add: lexed_def py_int_def)

lemma post_py_float_bind:
  "lexed tok \<Longrightarrow> tok_type tok = ''DECIMAL'' \<Longrightarrow> (\<And>q. 0 \<le> q \<Longrightarrow> post Q (k q)) \<Longrightarrow>
     post Q (and_then (py_float (tok_value tok)) k)"
  by (cases "py_float (tok_value tok)") (simp_all add: lexed_def)

lemma post_skip_nl: "tokens s = ts \<Longrightarrow> post (\<lambda>s'. tokens s' = ts) (skip_nl s)"
  by (simp add: post_def skip_nl_remaining Let_def)

lemma post_fin: "tokens s = ts \<Longrightarrow> post (\<lambda>s'. tokens s' = ts) (fin s)"
  by (cases "remaining s") (simp_all add: post_def fin_remaining skip_nl_remaining Let_def)

lemmas post_rules =
  post_consume_bind post_state_bind post_bool_bind post_current_bind post_py_int_bind
  post_py_float_bind post_skip_nl post_fin post_match post_py_or post_if post_Inl post_Inr

lemma id_not_reserved: "lexed tok \<Longrightarrow> tok_type tok = ''ID'' \<Longrightarrow> tok_value tok \<notin> RESERVED"
  by (auto simp: lexed_def)

lemma post_parametros:
  "tokens s = ts \<Longrightarrow> list_all lexed ts \<Longrightarrow> post (\<lambda>s'. tokens s' = ts) (parametros s)"
  unfolding parametros_def
  by (intro post_rules) simp_all

lemma post_def_producto:
  "tokens s = ts \<Longrightarrow> list_all lexed ts \<Longrightarrow> post (\<lambda>s'. tokens s' = ts) (def_producto s)"
  unfolding def_producto_def Let_def
  by (intro post_rules) (simp_all add: id_not_reserved)

lemma post_and_then_eq:
  "post P r \<Longrightarrow> (\<And>x. r = Inr x \<Longrightarrow> P x \<Longrightarrow> post Q (k x)) \<Longrightarrow> post Q (and_then r k)"
  by (cases r) (simp_all add: post_def)

lemma catalogo_unfold:
  "catalogo self =
     and_then (match ''KW'' (Some ''PRODUCTO'') self) (\<lambda>b.
       if b then and_then (def_producto self) (\<lambda>self'. and_then (skip_nl self') catalogo)
       else Inr self)"
  by (subst catalogo.simps) (simp add: and_then_def split: sum.splits)

lemma definiciones_unfold:
  "definiciones self =
     and_then (match ''KW'' (Some ''CARRUSEL'') self) (\<lambda>b.
       if b then and_then (def_carrusel self) (\<lambda>self'. and_then (skip_nl self') definiciones)
       else Inr self)"
  by (subst definiciones.simps) (simp add: and_then_def split: sum.splits)

lemma lista_tx_while_unfold:
  "lista_tx_while self =
     and_then (match ''COMMA'' None self) (\<lambda>b.
       if b then
         and_then (consume ''COMMA'' None self) (\<lambda>(tok, self1).
         and_then (skip_nl self1) (\<lambda>self2. and_then (tx self2) lista_tx_while))
       else Inr self)"
  by (subst lista_tx_while.simps) (simp add: and_then_def split: sum.splits prod.splits)

lemma simulacion_while_unfold:
  "simulacion_while self =
     and_then (py_or (match ''KW'' (Some ''ESTADO'') self)
                (py_or (match ''KW'' (Some ''ESTADISTICAS'') self)
                       (match ''KW'' (Some ''REPORTE'') self))) (\<lambda>b.
       if b then
         and_then (consulta self) (\<lambda>self1.
         and_then (fin self1) (\<lambda>self2.
         and_then (skip_nl self2) simulacion_while))
       else Inr self)"
  by (subst simulacion_while.simps) (simp add: and_then_def split: sum.splits)

lemma post_catalogo:
  "tokens s = ts \<Longrightarrow> list_all lexed ts \<Longrightarrow> post (\<lambda>s'. tokens s' = ts) (catalogo s)"
proof (induction s rule: catalogo.induct)
  case (1 self)
  let ?Q = "\<lambda>s'. tokens s' = ts"
  have "post ?Q (and_then (match ''KW'' (Some ''PRODUCTO'') self) (\<lambda>b.
       if b then and_then (def_producto self) (\<lambda>self'. and_then (skip_nl self') catalogo)
       else Inr self))"
  proof (rule post_and_then_eq [OF post_match], rule post_if)
    fix b
    assume m: "match ''KW'' (Some ''PRODUCTO'') self = Inr b" and b: "b"
    show "post ?Q (and_then (def_producto self) (\<lambda>self'. and_then (skip_nl self') catalogo))"
    proof (rule post_and_then_eq [OF post_def_producto [OF "1.prems"]])
      fix s1
      assume d: "def_producto self = Inr s1" and t1: "tokens s1 = ts"
      show "post ?Q (and_then (skip_nl s1) catalogo)"
      proof (rule post_and_then_eq [OF post_skip_nl [OF t1]])
        fix s2
        assume k: "skip_nl s1 = Inr s2" and t2: "tokens s2 = ts"
        from "1.IH" [OF m b d k t2 "1.prems"(2)] show "post ?Q (catalogo s2)" .
      qed
    qed
  next
    fix b
    show "post ?Q (Inr self)" using "1.prems"(1) by (rule post_Inr)
  qed
  then show ?case by (simp add: catalogo_unfold [of self])
qed

lemma post_def_carrusel:
  "tokens s = ts \<Longrightarrow> list_all lexed ts \<Longrightarrow> post (\<lambda>s'. tokens s' = ts) (def_carrusel s)"
  unfolding def_carrusel_def Let_def
  by (intro post_rules post_parametros post_catalogo) (simp_all add: id_not_reserved)

lemma post_definiciones:
  "tokens s = ts \<Longrightarrow> list_all lexed ts \<Longrightarrow> post (\<lambda>s'. tokens s' = ts) (definiciones s)"
proof (induction s rule: definiciones.induct)
  case (1 self)
  let ?Q = "\<lambda>s'. tokens s' = ts"
  have "post ?Q (and_then (match ''KW'' (Some ''CARRUSEL'') self) (\<lambda>b.
       if b then and_then (def_carrusel self) (\<lambda>self'. and_then (skip_nl self') definiciones)
       else Inr self))"
  proof (rule post_and_then_eq [OF post_match], rule post_if)
    fix b
    assume m: "match ''KW'' (Some ''CARRUSEL'') self = Inr b" and b: "b"
    show "post ?Q (and_then (def_carrusel self) (\<lambda>self'. and_then (skip_nl self') definiciones))"
    proof (rule post_and_then_eq [OF post_def_carrusel [OF "1.prems"]])
      fix s1
      assume d: "def_carrusel self = Inr s1" and t1: "tokens s1 = ts"
      show "post ?Q (and_then (skip_nl s1) definiciones)"
      proof (rule post_and_then_eq [OF post_skip_nl [OF t1]])
        fix s2
        assume k: "skip_nl s1 = Inr s2" and t2: "tokens s2 = ts"
        from "1.IH" [OF m b d k t2 "1.prems"(2)] show "post ?Q (definiciones s2)" .
      qed
    qed
  next
    fix b
    show "post ?Q (Inr self)" using "1.prems"(1) by (rule post_Inr)
  qed
  then show ?case by (simp add: definiciones_unfold [of self])
qed

lemma post_check_tx_bind:
  "(\<And>u. post Q (k u)) \<Longrightarrow> post Q (and_then (check_tx_semantics s pid qty) k)"
  by (simp add: check_tx_semantics_def post_def)

lemma post_tx:
  "tokens s = ts \<Longrightarrow> list_all lexed ts \<Longrightarrow> post (\<lambda>s'. tokens s' = ts) (tx s)"
  unfolding tx_def Let_def
  by (intro post_rules post_check_tx_bind) simp_all

lemma post_lista_tx_while:
  "tokens s = ts \<Longrightarrow> list_all lexed ts \<Longrightarrow> post (\<lambda>s'. tokens s' = ts) (lista_tx_while s)"
proof (induction s rule: lista_tx_while.induct)
  case (1 self)
  let ?Q = "\<lambda>s'. tokens s' = ts"
  have "post ?Q (and_then (match ''COMMA'' None self) (\<lambda>b.
       if b then
         and_then (consume ''COMMA'' None self) (\<lambda>(tok, self1).
         and_then (skip_nl self1) (\<lambda>self2. and_then (tx self2) lista_tx_while))
       else Inr self))"
  proof (rule post_and_then_eq [OF post_match], rule post_if)
    fix b
    assume m: "match ''COMMA'' None self = Inr b" and b: "b"
    show "post ?Q (and_then (consume ''COMMA'' None self) (\<lambda>(tok, self1).
         and_then (skip_nl self1) (\<lambda>self2. and_then (tx self2) lista_tx_while)))"
    proof (rule post_and_then_eq [OF post_consume [OF "1.prems"]])
      fix x :: "token \<times> parser"
      assume c: "consume ''COMMA'' None self = Inr x"
        and px: "case x of (tok, s') \<Rightarrow> tokens s' = ts \<and> lexed tok \<and> tok_type tok = ''COMMA''"
      obtain tok s1 where x: "x = (tok, s1)" by (cases x)
      with px have t1: "tokens s1 = ts" by simp
      have "post ?Q (and_then (skip_nl s1) (\<lambda>self2. and_then (tx self2) lista_tx_while))"
      proof (rule post_and_then_eq [OF post_skip_nl [OF t1]])
        fix s2
        assume k: "skip_nl s1 = Inr s2" and t2: "tokens s2 = ts"
        show "post ?Q (and_then (tx s2) lista_tx_while)"
        proof (rule post_and_then_eq [OF post_tx [OF t2 "1.prems"(2)]])
          fix s3
          assume t: "tx s2 = Inr s3" and t3: "tokens s3 = ts"
          from "1.IH" [OF m b c [unfolded x] refl k t t3 "1.prems"(2)]
          show "post ?Q (lista_tx_while s3)" .
        qed
      qed
      with x show "post ?Q (case x of (tok, self1) \<Rightarrow>
          and_then (skip_nl self1) (\<lambda>self2. and_then (tx self2) lista_tx_while))" by simp
    qed
  next
    fix b
    show "post ?Q (Inr self)" using "1.prems"(1) by (rule post_Inr)
  qed
  then show ?case by (simp add: lista_tx_while_unfold [of self])
qed

lemma post_lista_tx:
  assumes "tokens s = ts" and "list_all lexed ts"
  shows "post (\<lambda>s'. tokens s' = ts) (lista_tx s)"
  unfolding lista_tx_def
  by (rule post_and_then [OF post_tx [OF assms]]) (rule post_lista_tx_while [OF _ assms(2)])

lemma post_bloque_transacciones:
  "tokens s = ts \<Longrightarrow> list_all lexed ts \<Longrightarrow>
     post (\<lambda>s'. tokens s' = ts) (bloque_transacciones s)"
  unfolding bloque_transacciones_def
  by (intro post_rules post_lista_tx) simp_all

lemma post_consulta:
  "tokens s = ts \<Longrightarrow> list_all lexed ts \<Longrightarrow> post (\<lambda>s'. tokens s' = ts) (consulta s)"
  unfolding consulta_def
  by (intro post_rules) simp_all

lemma post_simulacion_while:
  "tokens s = ts \<Longrightarrow> list_all lexed ts \<Longrightarrow> post (\<lambda>s'. tokens s' = ts) (simulacion_while s)"
proof (induction s rule: simulacion_while.induct)
  case (1 self)
  let ?Q = "\<lambda>s'. tokens s' = ts"
  let ?c = "py_or (match ''KW'' (Some ''ESTADO'') self)
                (py_or (match ''KW'' (Some ''ESTADISTICAS'') self)
                       (match ''KW'' (Some ''REPORTE'') self))"
  have pc: "post (\<lambda>b. True) ?c" by (intro post_py_or post_match)
  have "post ?Q (and_then ?c (\<lambda>b.
       if b then
         and_then (consulta self) (\<lambda>self1.
         and_then (fin self1) (\<lambda>self2.
         and_then (skip_nl self2) simulacion_while))
       else Inr self))"
  proof (rule post_and_then_eq [OF pc], rule post_if)
    fix b
    assume m: "?c = Inr b" and b: "b"
    show "post ?Q (and_then (consulta self) (\<lambda>self1.
         and_then (fin self1) (\<lambda>self2. and_then (skip_nl self2) simulacion_while)))"
    proof (rule post_and_then_eq [OF post_consulta [OF "1.prems"]])
      fix s1
      assume c: "consulta self = Inr s1" and t1: "tokens s1 = ts"
      show "post ?Q (and_then (fin s1) (\<lambda>self2. and_then (skip_nl self2) simulacion_while))"
      proof (rule post_and_then_eq [OF post_fin [OF t1]])
        fix s2
        assume f: "fin s1 = Inr s2" and t2: "tokens s2 = ts"
        show "post ?Q (and_then (skip_nl s2) simulacion_while)"
        proof (rule post_and_then_eq [OF post_skip_nl [OF t2]])
          fix s3
          assume k: "skip_nl s2 = Inr s3" and t3: "tokens s3 = ts"
          from "1.IH" [OF m b c f k t3 "1.prems"(2)] show "post ?Q (simulacion_while s3)" .
        qed
      qed
    qed
  next
    fix b
    show "post ?Q (Inr self)" using "1.prems"(1) by (rule post_Inr)
  qed
  then show ?case by (simp add: simulacion_while_unfold [of self])
qed

lemma post_simulacion:
  "tokens s = ts \<Longrightarrow> list_all lexed ts \<Longrightarrow> post (\<lambda>s'. tokens s' = ts) (simulacion s)"
  unfolding simulacion_def
  by (intro post_rules post_bloque_transacciones post_simulacion_while) simp_all

lemma post_programa:
  "tokens s = ts \<Longrightarrow> list_all lexed ts \<Longrightarrow> post (\<lambda>s'. tokens s' = ts) (programa s)"
  unfolding programa_def
  by (intro post_rules post_definiciones post_simulacion) simp_all

lemma main_live: "main src = Inl e \<Longrightarrow> \<not> dead_error e"
proof (cases "tokenize src")
  case (Inl e')
  assume "main src = Inl e"
  with Inl have "e = e'" by (simp add: main_def)
  with Inl tokenize_loop_error [of src "(0, 1, 1)" "[]" e'] show ?thesis
    by (auto simp: tokenize_def)
next
  case (Inr toks)
  assume m: "main src = Inl e"
  have "post (\<lambda>s'. tokens s' = toks) (programa (Parser toks))"
    by (rule post_programa) (simp_all add: Parser_def tokenize_lexed [OF Inr])
  with m Inr show ?thesis
    by (cases "programa (Parser toks)") (simp_all add: main_def post_def)
qed

section \<open>The lexer: decimals and termination\<close>

lemma scan_decimal:
  assumes "RE_DECIMAL chunk = Some m"
  shows "scan chunk line col = Inr (Some (Token ''DECIMAL'' m line col), m)"
proof -
  from assms obtain c cs where c: "chunk = c # cs"
    by (cases chunk) (simp_all add: RE_DECIMAL_def)
  with assms have d: "is_digit c"
    by (simp add: RE_DECIMAL_def Let_def split: if_splits)
  have "c \<noteq> newline" "c \<noteq> tab" "c \<noteq> CHR '' ''" "c \<noteq> CHR ''#''" "c \<noteq> dquote"
    using d not_digit_special by blast+
  with c assms SYMBOLS_not_digit [OF d] show ?thesis
    by (simp add: scan_def RE_NEWLINE_def RE_WHITESPACE_def RE_COMMENT_def RE_STRING_def)
qed

lemma RE_DECIMAL_INT: "RE_DECIMAL chunk = Some m \<Longrightarrow> RE_INT chunk \<noteq> None"
  by (simp add: RE_DECIMAL_def RE_INT_def Let_def split: if_splits)

text \<open>
  C5. The text \<open>12.5\<close> lexes to one \<open>DECIMAL\<close> token with the lexeme \<open>12.5\<close>, followed
  only by the end-of-input token. More generally, at every offset where the decimal
  pattern matches, the integer pattern matches as well, and the loop body emits the
  \<open>DECIMAL\<close> token with the whole decimal match: the decimal pattern is tried first.
\<close>

theorem decimal_before_int:
  "tokenize ''12.5'' = Inr [Token ''DECIMAL'' ''12.5'' 1 1, Token ''EOF'' [] 1 5] \<and>
   (\<forall>chunk line col m. RE_DECIMAL chunk = Some m \<longrightarrow>
      RE_INT chunk \<noteq> None \<and>
      scan chunk line col = Inr (Some (Token ''DECIMAL'' m line col), m))"
proof
  show "tokenize ''12.5'' = Inr [Token ''DECIMAL'' ''12.5'' 1 1, Token ''EOF'' [] 1 5]"
    by code_simp
  show "\<forall>chunk line col m. RE_DECIMAL chunk = Some m \<longrightarrow>
      RE_INT chunk \<noteq> None \<and>
      scan chunk line col = Inr (Some (Token ''DECIMAL'' m line col), m)"
    using scan_decimal RE_DECIMAL_INT by blast
qed

theorem decimal_before_int_witness:
  "RE_DECIMAL ''12.5 '' = Some ''12.5'' \<and> RE_INT ''12.5 '' = Some ''12'' \<and>
   scan ''12.5 '' 3 7 = Inr (Some (Token ''DECIMAL'' ''12.5'' 3 7), ''12.5'')"
proof -
  have h: "RE_DECIMAL ''12.5 '' = Some ''12.5''" by code_simp
  have i: "RE_INT ''12.5 '' = Some ''12''" by code_simp
  from decimal_before_int h i show ?thesis by blast
qed

lemma scan_progress:
  assumes "i < length src" and "scan (drop i src) line col = Inr (tok, m)"
  shows "i < fst (advance m (i, line, col)) \<and> fst (advance m (i, line, col)) \<le> length src"
proof -
  from assms(1) have ne: "drop i src \<noteq> []" by simp
  from scan_prefix [OF assms(2) ne] obtain r where m: "m \<noteq> []" and r: "drop i src = m @ r"
    by blast
  from r have "length m \<le> length (drop i src)" by simp
  with m assms(1) show ?thesis by (simp add: advance_index)
qed

text \<open>
  C10. The lexer terminates on every text. Every pass through the loop body that does
  not raise hands a non-empty prefix of the rest of the text to \<open>advance\<close>, so the index
  \<open>i\<close> strictly grows and stays within the text; \<open>tokenize_loop\<close> is a total function
  by that measure. Its result is a lexical error, or a token list made of tokens of
  other kinds followed by exactly one \<open>EOF\<close> token.
\<close>

theorem tokenize_terminates:
  "(\<forall>i line col tok m. i < length src \<and> scan (drop i src) line col = Inr (tok, m) \<longrightarrow>
      m \<noteq> [] \<and> (\<exists>r. drop i src = m @ r) \<and>
      i < fst (advance m (i, line, col)) \<and> fst (advance m (i, line, col)) \<le> length src) \<and>
   ((\<exists>line col ch. tokenize src = Inl (Lexical line col ch)) \<or>
    (\<exists>ts line col. tokenize src = Inr (ts @ [Token ''EOF'' [] line col]) \<and>
       (\<forall>t \<in> set ts. tok_type t \<noteq> ''EOF'')))"
proof
  show "\<forall>i line col tok m. i < length src \<and> scan (drop i src) line col = Inr (tok, m) \<longrightarrow>
      m \<noteq> [] \<and> (\<exists>r. drop i src = m @ r) \<and>
      i < fst (advance m (i, line, col)) \<and> fst (advance m (i, line, col)) \<le> length src"
  proof (intro allI impI, elim conjE)
    fix i line col tok m
    assume lt: "i < length src" and sc: "scan (drop i src) line col = Inr (tok, m)"
    from lt have "drop i src \<noteq> []" by simp
    from scan_prefix [OF sc this] scan_progress [OF lt sc]
    show "m \<noteq> [] \<and> (\<exists>r. drop i src = m @ r) \<and>
      i < fst (advance m (i, line, col)) \<and> fst (advance m (i, line, col)) \<le> length src"
      by blast
  qed
  show "(\<exists>line col ch. tokenize src = Inl (Lexical line col ch)) \<or>
    (\<exists>ts line col. tokenize src = Inr (ts @ [Token ''EOF'' [] line col]) \<and>
       (\<forall>t \<in> set ts. tok_type t \<noteq> ''EOF''))"
  proof (cases "tokenize src")
    case (Inl e)
    then show ?thesis using tokenize_loop_error [of src "(0, 1, 1)" "[]" e]
      by (auto simp: tokenize_def)
  next
    case (Inr toks)
    from tokenize_shape [OF Inr] Inr show ?thesis by (auto simp: list_all_iff)
  qed
qed

theorem tokenize_terminates_witness:
  "scan (drop 1 ''a;@'') 1 2 = Inr (Some (Token ''SEMI'' '';'' 1 2), '';'') \<and>
   1 < fst (advance '';'' (1, 1, 2)) \<and> fst (advance '';'' (1, 1, 2)) \<le> length ''a;@'' \<and>
   tokenize ''a;@'' = Inl (Lexical 1 3 (CHR ''@'')) \<and>
   tokenize ''a;'' =
     Inr ([Token ''ID'' ''a'' 1 1, Token ''SEMI'' '';'' 1 2] @ [Token ''EOF'' [] 1 3])"
proof -
  have sc: "scan (drop 1 ''a;@'') 1 2 = Inr (Some (Token ''SEMI'' '';'' 1 2), '';'')"
    by code_simp
  have lt: "(1::nat) < length ''a;@''" by simp
  have e: "tokenize ''a;@'' = Inl (Lexical 1 3 (CHR ''@''))" by code_simp
  have t: "tokenize ''a;'' =
     Inr ([Token ''ID'' ''a'' 1 1, Token ''SEMI'' '';'' 1 2] @ [Token ''EOF'' [] 1 3])"
    by code_simp
  moreover from tokenize_terminates [of "''a;@''"] lt sc
  have "1 < fst (advance '';'' (1, 1, 2)) \<and> fst (advance '';'' (1, 1, 2)) \<le> length ''a;@''"
    by blast
  ultimately show ?thesis using sc e by blast
qed

section \<open>Reserved words and negative prices\<close>

text \<open>
  The scenario of the specification: one carousel (5 slots, capacity 20) with one product
  (price 1.50, minimum 1, maximum 10, criticality ALTA), the transaction block
  \<open>[RESURTIR(p1, 5)]\<close> and the query \<open>ESTADO\<close>; and the same text with the price
  written \<open>-1.0\<close>.
\<close>

definition scenario :: string where
  "scenario =
     ''CARRUSEL c1 {\<newline>ESPACIOS: 5\<newline>CAPACIDAD: 20\<newline>PRODUCTO p1 {\<newline>PRECIO: 1.50\<newline>MINIMO: 1\<newline>MAXIMO: 10\<newline>CRITICIDAD: ALTA\<newline>}\<newline>}\<newline>SIMULAR {\<newline>TRANSACCIONES: [RESURTIR(p1, 5)]\<newline>ESTADO\<newline>}\<newline>''"

definition scenario_negative_price :: string where
  "scenario_negative_price =
     ''CARRUSEL c1 {\<newline>ESPACIOS: 5\<newline>CAPACIDAD: 20\<newline>PRODUCTO p1 {\<newline>PRECIO: -1.0\<newline>MINIMO: 1\<newline>MAXIMO: 10\<newline>CRITICIDAD: ALTA\<newline>}\<newline>}\<newline>SIMULAR {\<newline>TRANSACCIONES: [RESURTIR(p1, 5)]\<newline>ESTADO\<newline>}\<newline>''"

lemma scenario_accepted: "main scenario = Inr ()"
  by code_simp

lemma scenario_negative_price_lexical:
  "main scenario_negative_price = Inl (Lexical 5 9 (CHR ''-''))"
  by code_simp

lemma scan_minus: "scan (CHR ''-'' # cs) line col = Inl (Lexical line col (CHR ''-''))"
  by (simp add: scan_def RE_NEWLINE_def RE_WHITESPACE_def RE_COMMENT_def RE_STRING_def
      RE_DECIMAL_def RE_INT_def RE_ID_def SYMBOLS_def newline_def tab_def dquote_def
      is_digit_def is_alpha_def)

text \<open>
  C1, as stated, fails: for the scenario with the price written \<open>-1.0\<close> the result is not
  the semantic error about the price.
\<close>

theorem negative_price_counterexample:
  "main scenario_negative_price \<noteq> Inl (Semantic PrecioNegative)"
  by (simp add: scenario_negative_price_lexical)

text \<open>
  C1, amended. The scenario is accepted; with the price written \<open>-1.0\<close> it is rejected
  with the lexical error for the character \<open>-\<close> at line 5, column 9, where the price
  begins. The lexer has no pattern that starts with a sign, so the loop body raises the
  lexical error at every \<open>-\<close> it reaches, and no text at all is rejected with the
  semantic error about the price.
\<close>

theorem negative_price_is_lexical_error:
  "main scenario = Inr () \<and>
   main scenario_negative_price = Inl (Lexical 5 9 (CHR ''-'')) \<and>
   (\<forall>cs line col. scan (CHR ''-'' # cs) line col = Inl (Lexical line col (CHR ''-''))) \<and>
   (\<forall>src. main src \<noteq> Inl (Semantic PrecioNegative))"
  using scenario_accepted scenario_negative_price_lexical scan_minus main_live
  by fastforce

text \<open>
  C9. On the tokens of any text that the lexer accepts, \<open>consume("ID")\<close> never returns a
  token whose lexeme is a reserved word, in whatever state of the parser it is called;
  so neither \<open>def_carrusel\<close> nor \<open>def_producto\<close> ever raises the error "is a reserved
  word", and no run of \<open>main\<close> ends with it.
\<close>

theorem reserved_check_unreachable:
  assumes "tokenize src = Inr toks"
  shows "(\<forall>self tok self'. tokens self = toks \<and> consume ''ID'' None self = Inr (tok, self') \<longrightarrow>
            tok_value tok \<notin> RESERVED) \<and>
         (\<forall>self w. tokens self = toks \<longrightarrow>
            def_carrusel self \<noteq> Inl (Semantic (ReservedAsId w)) \<and>
            def_producto self \<noteq> Inl (Semantic (ReservedAsId w))) \<and>
         (\<forall>w. main src \<noteq> Inl (Semantic (ReservedAsId w)))"
proof (intro conjI allI impI)
  note lx = tokenize_lexed [OF assms]
  fix self :: parser and tok self'
  assume "tokens self = toks \<and> consume ''ID'' None self = Inr (tok, self')"
  then have t: "tokens self = toks" and c: "consume ''ID'' None self = Inr (tok, self')" by simp_all
  from post_consume [OF t lx, of "''ID''" None] c have "lexed tok" "tok_type tok = ''ID''"
    by (simp_all add: post_def)
  then show "tok_value tok \<notin> RESERVED" by (rule id_not_reserved)
next
  note lx = tokenize_lexed [OF assms]
  fix self :: parser and w
  assume t: "tokens self = toks"
  from post_def_carrusel [OF t lx] show "def_carrusel self \<noteq> Inl (Semantic (ReservedAsId w))"
    by (auto simp: post_def)
  from post_def_producto [OF t lx] show "def_producto self \<noteq> Inl (Semantic (ReservedAsId w))"
    by (auto simp: post_def)
next
  fix w
  show "main src \<noteq> Inl (Semantic (ReservedAsId w))"
    using main_live [of src "Semantic (ReservedAsId w)"] by auto
qed

theorem reserved_check_unreachable_witness:
  "tokenize ''PRODUCTO p1'' =
     Inr [Token ''KW'' ''PRODUCTO'' 1 1, Token ''ID'' ''p1'' 1 10, Token ''EOF'' [] 1 12] \<and>
   consume ''ID'' None
     \<lparr>tokens = [Token ''KW'' ''PRODUCTO'' 1 1, Token ''ID'' ''p1'' 1 10, Token ''EOF'' [] 1 12],
      pos = 1, products_defined = {}, carousels_defined = {}\<rparr> =
     Inr (Token ''ID'' ''p1'' 1 10,
       \<lparr>tokens = [Token ''KW'' ''PRODUCTO'' 1 1, Token ''ID'' ''p1'' 1 10, Token ''EOF'' [] 1 12],
        pos = 2, products_defined = {}, carousels_defined = {}\<rparr>) \<and>
   ''p1'' \<notin> RESERVED \<and>
   main ''PRODUCTO p1'' \<noteq> Inl (Semantic (ReservedAsId ''p1''))"
proof -
  let ?toks = "[Token ''KW'' ''PRODUCTO'' 1 1, Token ''ID'' ''p1'' 1 10, Token ''EOF'' [] 1 12]"
  let ?s = "\<lparr>tokens = ?toks, pos = 1, products_defined = {}, carousels_defined = {}\<rparr>"
  have t: "tokenize ''PRODUCTO p1'' = Inr ?toks" by code_simp
  have c: "consume ''ID'' None ?s =
     Inr (Token ''ID'' ''p1'' 1 10, ?s\<lparr>pos := 2\<rparr>)"
    by (simp add: consume_def match_def current_def)
  from reserved_check_unreachable [OF t]
  have a: "\<And>self tok self'. tokens self = ?toks \<Longrightarrow>
      consume ''ID'' None self = Inr (tok, self') \<Longrightarrow> tok_value tok \<notin> RESERVED"
    and b: "main ''PRODUCTO p1'' \<noteq> Inl (Semantic (ReservedAsId ''p1''))"
    by blast+
  from a [OF _ c] have "''p1'' \<notin> RESERVED" by simp
  with t c b show ?thesis by simp
qed

end
